theory Spec2Isabelle
  imports Main "HOL-Library.Word"
begin

section \<open>JavaScript values used by the downloader services\<close>

text \<open>
  A JavaScript string is a sequence of UTF-16 code units; \<open>length\<close>, \<open>substring\<close>,
  \<open>trim\<close> and a regular expression without the \<open>u\<close> flag all work on code units.
\<close>

type_synonym jsstring = "16 word list"

definition ascii :: "string \<Rightarrow> jsstring" where
  "ascii s = map (\<lambda>c. word_of_nat (of_char c)) s"

text \<open>
  The code units matched by \<open>\s\<close> and removed by \<open>trim\<close> and by the first step of
  \<open>parseInt\<close>: WhiteSpace and LineTerminator of ECMAScript.
\<close>

definition isWhiteSpace :: "16 word \<Rightarrow> bool" where
  "isWhiteSpace c \<longleftrightarrow>
     c \<in> set [0x9, 0xA, 0xB, 0xC, 0xD, 0x20, 0xA0, 0x1680, 0x2028, 0x2029,
              0x202F, 0x205F, 0x3000, 0xFEFF]
     \<or> (0x2000 \<le> c \<and> c \<le> 0x200A)"

subsection \<open>parseInt\<close>

text \<open>Value of a code unit as a digit of radix \<open>R\<close>: 0-9, then a-z or A-Z for 10-35.\<close>

definition digitValue :: "nat \<Rightarrow> 16 word \<Rightarrow> nat option" where
  "digitValue R c =
     (let v = (if 0x30 \<le> c \<and> c \<le> 0x39 then Some (unat c - 48)
               else if 0x61 \<le> c \<and> c \<le> 0x7A then Some (unat c - 87)
               else if 0x41 \<le> c \<and> c \<le> 0x5A then Some (unat c - 55)
               else None)
      in case v of None \<Rightarrow> None | Some d \<Rightarrow> if d < R then Some d else None)"

definition isRadixDigit :: "nat \<Rightarrow> 16 word \<Rightarrow> bool" where
  "isRadixDigit R c \<longleftrightarrow> digitValue R c \<noteq> None"

definition mathInt :: "nat \<Rightarrow> jsstring \<Rightarrow> nat" where
  "mathInt R Z = foldl (\<lambda>acc c. acc * R + (case digitValue R c of None \<Rightarrow> 0 | Some d \<Rightarrow> d)) 0 Z"

fun bits :: "nat \<Rightarrow> nat" where
  "bits n = (if n = 0 then 0 else Suc (bits (n div 2)))"

declare bits.simps [simp del]

text \<open>
  The Number value of a non-negative integer: the nearest double, ties to even. Integers
  below \<open>2 ^ 53\<close> are exact. The value \<open>2 ^ 1024\<close>, which no finite double reaches,
  stands for \<open>Infinity\<close>, so that the order of the integers is the order of the Numbers.
\<close>

definition toNumber :: "nat \<Rightarrow> nat" where
  "toNumber n =
     (if n < 2 ^ 53 then n
      else let e = bits n - 53;
               q = n div 2 ^ e;
               r = n mod 2 ^ e;
               half = 2 ^ (e - 1);
               q' = (if half < r \<or> (r = half \<and> odd q) then q + 1 else q)
           in if 2 ^ 1024 \<le> q' * 2 ^ e then 2 ^ 1024 else q' * 2 ^ e)"

text \<open>
  \<open>parseInt(string)\<close> with no radix argument, step by step as ECMAScript defines it:
  leading white space is dropped, one sign is read, a prefix \<open>0x\<close> or \<open>0X\<close> selects
  radix 16, the longest run of digits is read, and no digit at all gives \<open>NaN\<close>
  (\<open>None\<close>). Both zeros are the integer 0: the callers only pass the result to
  \<open>|| 0\<close>.
\<close>

definition parseInt :: "jsstring \<Rightarrow> int option" where
  "parseInt inputString =
     (let S = dropWhile isWhiteSpace inputString;
          sign = (case S of c # cs \<Rightarrow> if c = 0x2D then - 1 else 1 | [] \<Rightarrow> (1::int));
          S1 = (case S of c # cs \<Rightarrow> if c = 0x2B \<or> c = 0x2D then cs else S | [] \<Rightarrow> S);
          hex = (case S1 of a # b # cs \<Rightarrow> a = 0x30 \<and> (b = 0x78 \<or> b = 0x58) | _ \<Rightarrow> False);
          R = (if hex then 16 else 10);
          S2 = (if hex then drop 2 S1 else S1);
          Z = takeWhile (isRadixDigit R) S2
      in if Z = [] then None else Some (sign * int (toNumber (mathInt R Z))))"

text \<open>\<open>ToString\<close> of an optional string property: a missing one reads \<open>undefined\<close>.\<close>

definition toStringArg :: "jsstring option \<Rightarrow> jsstring" where
  "toStringArg v = (case v of None \<Rightarrow> ascii ''undefined'' | Some s \<Rightarrow> s)"

text \<open>\<open>x || 0\<close> for a Number \<open>x\<close>: \<open>NaN\<close> and zero are falsy.\<close>

definition orZero :: "int option \<Rightarrow> int" where
  "orZero x = (case x of None \<Rightarrow> 0 | Some n \<Rightarrow> n)"

section \<open>Data model\<close>

text \<open>
  One entry of \<open>YoutubeMetadata.formats\<close>. The interface of the first service has the
  first six fields; the two later services add the three optional ones.
\<close>

record format =
  quality :: jsstring
  container :: jsstring
  hasVideo :: bool
  hasAudio :: bool
  resolution :: jsstring
  bitrate :: jsstring
  contentLength :: "int option"
  url :: "jsstring option"
  height :: "jsstring option"

record youtubeMetadata =
  title :: jsstring
  duration :: int
  thumbnail :: jsstring
  author :: jsstring
  viewCount :: int
  publishDate :: jsstring
  description :: jsstring
  formats :: "format list"

datatype mediaType = Video | Audio

definition mp4 :: jsstring where
  "mp4 = ascii ''mp4''"

text \<open>
  An optional string in a condition, as in \<open>if (quality)\<close> and \<open>message || '...'\<close>:
  the absent value and the empty string are falsy. \<open>truthyString\<close> gives the string
  when it is truthy.
\<close>

definition truthyString :: "jsstring option \<Rightarrow> jsstring option" where
  "truthyString v = (case v of None \<Rightarrow> None | Some s \<Rightarrow> if s = [] then None else Some s)"

section \<open>selectBestFormat, later services (part_001, both copies)\<close>

text \<open>
  \<^verbatim>\<open>src/unnamed/part_001\<close>, lines 216-249, and the same text again at lines 458-491.
\<close>

definition keepFormat1 :: "mediaType \<Rightarrow> format \<Rightarrow> bool" where
  "keepFormat1 mt f =
     (if mt = Audio then hasAudio f \<and> \<not> hasVideo f \<and> container f = mp4
      else hasVideo f \<and> hasAudio f \<and> container f = mp4)"

definition filterFormats1 :: "mediaType \<Rightarrow> format list \<Rightarrow> format list" where
  "filterFormats1 mt fs = filter (keepFormat1 mt) fs"

definition qualityMap :: "(jsstring \<times> int) list" where
  "qualityMap =
     [(ascii ''4320p'', 4320), (ascii ''2160p'', 2160), (ascii ''1440p'', 1440),
      (ascii ''1080p'', 1080), (ascii ''720p'', 720), (ascii ''480p'', 480),
      (ascii ''360p'', 360), (ascii ''240p'', 240)]"

text \<open>
  \<open>qualityMap\<close> is an object literal, so \<open>qualityMap[quality]\<close> also finds the
  properties inherited from \<open>Object.prototype\<close>. Their values are functions (an object
  for \<open>__proto__\<close>): truthy, so \<open>|| 1080\<close> keeps them, and not numbers.
\<close>

definition objectPrototypeKeys :: "jsstring list" where
  "objectPrototypeKeys =
     map ascii [''constructor'', ''hasOwnProperty'', ''isPrototypeOf'',
       ''propertyIsEnumerable'', ''toLocaleString'', ''toString'', ''valueOf'',
       ''__proto__'', ''__defineGetter__'', ''__defineSetter__'',
       ''__lookupGetter__'', ''__lookupSetter__'']"

text \<open>
  \<open>qualityMap[quality] || 1080\<close>. \<open>None\<close> is a target that is not a number:
  \<open>height <= targetHeight\<close> is then false for every height, the target converting to
  \<open>NaN\<close>.
\<close>

definition targetHeight :: "jsstring \<Rightarrow> int option" where
  "targetHeight q =
     (case map_of qualityMap q of
        Some n \<Rightarrow> Some n
      | None \<Rightarrow> if q \<in> set objectPrototypeKeys then None else Some 1080)"

definition heightOf :: "format \<Rightarrow> int" where
  "heightOf f = orZero (parseInt (toStringArg (height f)))"

definition withinTarget :: "jsstring \<Rightarrow> format \<Rightarrow> bool" where
  "withinTarget q f = (case targetHeight q of None \<Rightarrow> False | Some t \<Rightarrow> heightOf f \<le> t)"

definition pickBest1 :: "format \<Rightarrow> format \<Rightarrow> format" where
  "pickBest1 best current = (if heightOf current > heightOf best then current else best)"

text \<open>The stage under \<open>if (quality)\<close>: \<open>find\<close> gives the first element that passes.\<close>

definition qualityStage1 :: "jsstring option \<Rightarrow> format list \<Rightarrow> format option" where
  "qualityStage1 qualityArg filteredFormats =
     (case truthyString qualityArg of
        Some q \<Rightarrow> find (withinTarget q) filteredFormats
      | None \<Rightarrow> None)"

text \<open>
  \<open>reduce\<close> without an initial value starts from the first element; it is only reached
  with a non-empty list, the empty one having returned \<open>null\<close> (\<open>None\<close>).
\<close>

definition defaultStage1 :: "format \<Rightarrow> format list \<Rightarrow> format" where
  "defaultStage1 x xs = foldl pickBest1 x xs"

definition selectBestFormat1 :: "format list \<Rightarrow> mediaType \<Rightarrow> jsstring option \<Rightarrow> format option" where
  "selectBestFormat1 fs mt qualityArg =
     (case filterFormats1 mt fs of
        [] \<Rightarrow> None
      | x # xs \<Rightarrow>
          (case qualityStage1 qualityArg (x # xs) of
             Some bestMatch \<Rightarrow> Some bestMatch
           | None \<Rightarrow> Some (defaultStage1 x xs)))"

section \<open>selectBestFormat, first service (part_000)\<close>

text \<open>
  \<^verbatim>\<open>src/unnamed/part_000\<close>, lines 122-147. The filter does not look at the container
  of an audio format, the quality stage compares labels, not heights, and the reduction
  reads \<open>resolution\<close> and compares the other way round.
\<close>

definition keepFormat0 :: "mediaType \<Rightarrow> format \<Rightarrow> bool" where
  "keepFormat0 mt f =
     (if mt = Audio then hasAudio f \<and> \<not> hasVideo f
      else hasVideo f \<and> hasAudio f \<and> container f = mp4)"

definition filterFormats0 :: "mediaType \<Rightarrow> format list \<Rightarrow> format list" where
  "filterFormats0 mt fs = filter (keepFormat0 mt) fs"

text \<open>\<open>s.includes(t)\<close>: \<open>t\<close> occurs in \<open>s\<close> as a contiguous run.\<close>

fun includesStr :: "'a list \<Rightarrow> 'a list \<Rightarrow> bool" where
  "includesStr [] t = (t = [])"
| "includesStr (c # cs) t = (take (length t) (c # cs) = t \<or> includesStr cs t)"

text \<open>
  \<open>toLowerCase\<close> is the host's Unicode case conversion; the selection takes it as the
  parameter \<open>lower\<close>. \<open>asciiLower\<close> is what it does on strings of ASCII code units.
\<close>

definition asciiLower :: "jsstring \<Rightarrow> jsstring" where
  "asciiLower s = map (\<lambda>c. if 0x41 \<le> c \<and> c \<le> 0x5A then c + 0x20 else c) s"

definition labelMatches :: "(jsstring \<Rightarrow> jsstring) \<Rightarrow> jsstring \<Rightarrow> format \<Rightarrow> bool" where
  "labelMatches lower q f = includesStr (lower (quality f)) (lower q)"

definition resolutionOf :: "format \<Rightarrow> int" where
  "resolutionOf f = orZero (parseInt (resolution f))"

definition pickBest0 :: "format \<Rightarrow> format \<Rightarrow> format" where
  "pickBest0 best current = (if resolutionOf best > resolutionOf current then best else current)"

definition qualityStage0 ::
  "(jsstring \<Rightarrow> jsstring) \<Rightarrow> jsstring option \<Rightarrow> format list \<Rightarrow> format option" where
  "qualityStage0 lower qualityArg filteredFormats =
     (case truthyString qualityArg of
        Some q \<Rightarrow> find (labelMatches lower q) filteredFormats
      | None \<Rightarrow> None)"

definition defaultStage0 :: "format \<Rightarrow> format list \<Rightarrow> format" where
  "defaultStage0 x xs = foldl pickBest0 x xs"

definition selectBestFormat0 ::
  "(jsstring \<Rightarrow> jsstring) \<Rightarrow> format list \<Rightarrow> mediaType \<Rightarrow> jsstring option \<Rightarrow> format option" where
  "selectBestFormat0 lower fs mt qualityArg =
     (case filterFormats0 mt fs of
        [] \<Rightarrow> None
      | x # xs \<Rightarrow>
          (case qualityStage0 lower qualityArg (x # xs) of
             Some formatByQuality \<Rightarrow> Some formatByQuality
           | None \<Rightarrow> Some (defaultStage0 x xs)))"

section \<open>sanitizeFilename\<close>

text \<open>
  \<^verbatim>\<open>src/unnamed/part_000\<close>, lines 161-166, and \<^verbatim>\<open>src/unnamed/part_001\<close>,
  lines 254-260 and 496-502.
\<close>

definition forbiddenChars :: "16 word list" where
  "forbiddenChars = [0x3C, 0x3E, 0x3A, 0x22, 0x2F, 0x5C, 0x7C, 0x3F, 0x2A]"

text \<open>\<open>.replace(/[<>:"/\\|?*]/g, '_')\<close>\<close>

definition replaceForbidden :: "jsstring \<Rightarrow> jsstring" where
  "replaceForbidden s = map (\<lambda>c. if c \<in> set forbiddenChars then 0x5F else c) s"

text \<open>\<open>.replace(/\s+/g, ' ')\<close>: every maximal run of white space becomes one space.\<close>

function collapseWhiteSpace :: "jsstring \<Rightarrow> jsstring" where
  "collapseWhiteSpace [] = []"
| "collapseWhiteSpace (c # cs) =
     (if isWhiteSpace c then 0x20 # collapseWhiteSpace (dropWhile isWhiteSpace cs)
      else c # collapseWhiteSpace cs)"
  by pat_completeness auto
termination
  by (relation "measure length") (auto simp: less_Suc_eq_le length_dropWhile_le)

definition trim :: "jsstring \<Rightarrow> jsstring" where
  "trim s = rev (dropWhile isWhiteSpace (rev (dropWhile isWhiteSpace s)))"

text \<open>First service (part_000): \<open>replace\<close>, \<open>substring(0, 80)\<close>, \<open>trim() || 'video'\<close>.\<close>

definition sanitizeFilename0 :: "jsstring \<Rightarrow> jsstring" where
  "sanitizeFilename0 t =
     (let r = trim (take 80 (replaceForbidden t))
      in if r = [] then ascii ''video'' else r)"

text \<open>Later services (part_001): the white space is collapsed before the truncation.\<close>

definition sanitizeFilename1 :: "jsstring \<Rightarrow> jsstring" where
  "sanitizeFilename1 filename =
     (let r = trim (take 80 (collapseWhiteSpace (replaceForbidden filename)))
      in if r = [] then ascii ''youtube-video'' else r)"

section \<open>getVideoMetadata\<close>

text \<open>
  The same text in all three services: \<^verbatim>\<open>src/unnamed/part_000\<close>, lines 37-55, and
  \<^verbatim>\<open>src/unnamed/part_001\<close>, lines 55-73 and 334-352.
\<close>

text \<open>
  The answer of \<open>api.getYoutubeMetadata(url).toPromise()\<close>: the promise rejects with an
  error, whose \<open>message\<close> may be missing, or resolves with a response, which may be
  \<open>undefined\<close>.
\<close>

record apiResponse =
  success :: bool
  data :: "youtubeMetadata option"

datatype apiOutcome = Rejected "jsstring option" | Resolved "apiResponse option"

definition msgRetrieval :: jsstring where
  "msgRetrieval = ascii ''Erreur lors de la r'' @ [0xE9] @ ascii ''cup'' @ [0xE9]
     @ ascii ''ration des m'' @ [0xE9] @ ascii ''tadonn'' @ [0xE9] @ ascii ''es''"

definition msgNoData :: jsstring where
  "msgNoData = ascii ''Aucune donn'' @ [0xE9] @ ascii ''e trouv'' @ [0xE9]
     @ ascii ''e pour cette vid'' @ [0xE9] @ ascii ''o''"

text \<open>The body of the \<open>try\<close>: \<open>Inl\<close> is what is thrown, with its \<open>message\<close>.\<close>

definition tryBody :: "apiOutcome \<Rightarrow> jsstring option + youtubeMetadata" where
  "tryBody out =
     (case out of
        Rejected m \<Rightarrow> Inl m
      | Resolved None \<Rightarrow> Inl (Some msgRetrieval)
      | Resolved (Some response) \<Rightarrow>
          if \<not> success response then Inl (Some msgRetrieval)
          else (case data response of
                  None \<Rightarrow> Inl (Some msgNoData)
                | Some d \<Rightarrow> Inr d))"

text \<open>The \<open>catch\<close>: \<open>throw new Error(error?.message || '...')\<close>.\<close>

definition getVideoMetadata :: "apiOutcome \<Rightarrow> jsstring + youtubeMetadata" where
  "getVideoMetadata out =
     (case tryBody out of
        Inl m \<Rightarrow> Inl (case truthyString m of Some s \<Rightarrow> s | None \<Rightarrow> msgRetrieval)
      | Inr d \<Rightarrow> Inr d)"

section \<open>Example inputs\<close>

definition fmt1080 :: format where
  "fmt1080 = \<lparr>quality = ascii ''1080p'', container = ascii ''mp4'', hasVideo = True,
     hasAudio = True, resolution = ascii ''1080'', bitrate = ascii ''4000'',
     contentLength = None, url = None, height = Some (ascii ''1080'')\<rparr>"

definition fmt720 :: format where
  "fmt720 = \<lparr>quality = ascii ''720p'', container = ascii ''mp4'', hasVideo = True,
     hasAudio = True, resolution = ascii ''720'', bitrate = ascii ''2500'',
     contentLength = None, url = None, height = Some (ascii ''720'')\<rparr>"

definition fmt720hfr :: format where
  "fmt720hfr = \<lparr>quality = ascii ''720p60'', container = ascii ''mp4'', hasVideo = True,
     hasAudio = True, resolution = ascii ''720'', bitrate = ascii ''3500'',
     contentLength = None, url = None, height = Some (ascii ''720'')\<rparr>"

definition fmt480 :: format where
  "fmt480 = \<lparr>quality = ascii ''480p'', container = ascii ''mp4'', hasVideo = True,
     hasAudio = True, resolution = ascii ''480'', bitrate = ascii ''1000'',
     contentLength = None, url = None, height = Some (ascii ''480'')\<rparr>"

definition fmtUnknown :: format where
  "fmtUnknown = \<lparr>quality = ascii ''unknown'', container = ascii ''mp4'', hasVideo = True,
     hasAudio = True, resolution = ascii ''abc'', bitrate = ascii ''0'',
     contentLength = None, url = None, height = Some (ascii ''abc'')\<rparr>"

definition fmtAudioMp4 :: format where
  "fmtAudioMp4 = \<lparr>quality = ascii ''tiny'', container = ascii ''mp4'', hasVideo = False,
     hasAudio = True, resolution = [], bitrate = ascii ''128'',
     contentLength = None, url = None, height = None\<rparr>"

definition fmtAudioWebm :: format where
  "fmtAudioWebm = \<lparr>quality = ascii ''tiny'', container = ascii ''webm'', hasVideo = False,
     hasAudio = True, resolution = [], bitrate = ascii ''160'',
     contentLength = None, url = None, height = None\<rparr>"

definition exampleMetadata :: youtubeMetadata where
  "exampleMetadata = \<lparr>title = ascii ''clip'', duration = 60, thumbnail = [],
     author = ascii ''someone'', viewCount = 7, publishDate = ascii ''2024-01-01'',
     description = [], formats = [fmt1080, fmt720]\<rparr>"

section \<open>The reduction keeps a maximum\<close>

text \<open>
  Both services reduce the filtered list with a comparison of two parsed heights. The one
  that replaces \<open>best\<close> only by a strictly greater element ends on the first maximum,
  the one that keeps \<open>best\<close> only while it is strictly greater ends on the last.
\<close>

lemma nth_snoc_old: "j < length ys \<Longrightarrow> (ys @ [y]) ! j = ys ! j"
  by (simp only: nth_append if_True)

lemma foldl_first_max:
  fixes k :: "'a \<Rightarrow> int"
  shows "\<exists>i < length (x # xs). foldl (\<lambda>best cur. if k cur > k best then cur else best) x xs = (x # xs) ! i
      \<and> (\<forall>j < length (x # xs). k ((x # xs) ! j) \<le> k ((x # xs) ! i))
      \<and> (\<forall>j < i. k ((x # xs) ! j) < k ((x # xs) ! i))"
proof (induction xs rule: rev_induct)
  case Nil
  show ?case by simp
next
  case (snoc y xs)
  let ?ys = "x # xs"
  let ?f = "\<lambda>best cur. if k cur > k best then cur else best"
  from snoc obtain i where i: "i < length ?ys" "foldl ?f x xs = ?ys ! i"
    and mx: "\<forall>j < length ?ys. k (?ys ! j) \<le> k (?ys ! i)"
    and lm: "\<forall>j < i. k (?ys ! j) < k (?ys ! i)"
    by blast
  have app: "x # (xs @ [y]) = ?ys @ [y]" by simp
  have new: "(?ys @ [y]) ! length ?ys = y"
    by (simp only: nth_append_length)
  have split: "\<And>j. j < length (?ys @ [y]) \<Longrightarrow> j < length ?ys \<or> j = length ?ys"
    by fastforce
  show ?case
  proof (cases "k y > k (?ys ! i)")
    case True
    have r: "foldl ?f x (xs @ [y]) = y"
      using True i(2) by simp
    have all: "\<forall>j < length (?ys @ [y]). k ((?ys @ [y]) ! j) \<le> k y"
    proof (intro allI impI)
      fix j assume "j < length (?ys @ [y])"
      from split [OF this] show "k ((?ys @ [y]) ! j) \<le> k y"
      proof
        assume 1: "j < length ?ys"
        with mx True nth_snoc_old [OF 1] show ?thesis by fastforce
      next
        assume "j = length ?ys"
        with new show ?thesis by simp
      qed
    qed
    have strict: "\<forall>j < length ?ys. k ((?ys @ [y]) ! j) < k y"
    proof (intro allI impI)
      fix j assume j: "j < length ?ys"
      with mx True nth_snoc_old [OF j] show "k ((?ys @ [y]) ! j) < k y" by fastforce
    qed
    show ?thesis
      unfolding app
      apply (rule exI [of _ "length ?ys"])
      using r all strict new by (simp del: nth_append_length)
  next
    case False
    have r: "foldl ?f x (xs @ [y]) = ?ys ! i"
      using False i(2) by simp
    have all: "\<forall>j < length (?ys @ [y]). k ((?ys @ [y]) ! j) \<le> k (?ys ! i)"
    proof (intro allI impI)
      fix j assume "j < length (?ys @ [y])"
      from split [OF this] show "k ((?ys @ [y]) ! j) \<le> k (?ys ! i)"
      proof
        assume 1: "j < length ?ys"
        with mx nth_snoc_old [OF 1] show ?thesis by fastforce
      next
        assume "j = length ?ys"
        with new False show ?thesis by simp
      qed
    qed
    have strict: "\<forall>j < i. k ((?ys @ [y]) ! j) < k (?ys ! i)"
    proof (intro allI impI)
      fix j assume j: "j < i"
      then have "j < length ?ys" using i(1) by simp
      from nth_snoc_old [OF this] lm j show "k ((?ys @ [y]) ! j) < k (?ys ! i)" by fastforce
    qed
    show ?thesis
      unfolding app
      apply (rule exI [of _ i])
      using r all strict nth_snoc_old [OF i(1)] i(1) by simp
  qed
qed

lemma foldl_last_max:
  fixes k :: "'a \<Rightarrow> int"
  shows "\<exists>i < length (x # xs). foldl (\<lambda>best cur. if k best > k cur then best else cur) x xs = (x # xs) ! i
      \<and> (\<forall>j < length (x # xs). k ((x # xs) ! j) \<le> k ((x # xs) ! i))
      \<and> (\<forall>j < length (x # xs). i < j \<longrightarrow> k ((x # xs) ! j) < k ((x # xs) ! i))"
proof (induction xs rule: rev_induct)
  case Nil
  show ?case by simp
next
  case (snoc y xs)
  let ?ys = "x # xs"
  let ?f = "\<lambda>best cur. if k best > k cur then best else cur"
  from snoc obtain i where i: "i < length ?ys" "foldl ?f x xs = ?ys ! i"
    and mx: "\<forall>j < length ?ys. k (?ys ! j) \<le> k (?ys ! i)"
    and rm: "\<forall>j < length ?ys. i < j \<longrightarrow> k (?ys ! j) < k (?ys ! i)"
    by blast
  have app: "x # (xs @ [y]) = ?ys @ [y]" by simp
  have new: "(?ys @ [y]) ! length ?ys = y"
    by (simp only: nth_append_length)
  have split: "\<And>j. j < length (?ys @ [y]) \<Longrightarrow> j < length ?ys \<or> j = length ?ys"
    by fastforce
  show ?case
  proof (cases "k (?ys ! i) > k y")
    case True
    have r: "foldl ?f x (xs @ [y]) = ?ys ! i"
      using True i(2) by simp
    have all: "\<forall>j < length (?ys @ [y]). k ((?ys @ [y]) ! j) \<le> k (?ys ! i)"
    proof (intro allI impI)
      fix j assume "j < length (?ys @ [y])"
      from split [OF this] show "k ((?ys @ [y]) ! j) \<le> k (?ys ! i)"
      proof
        assume 1: "j < length ?ys"
        with mx nth_snoc_old [OF 1] show ?thesis by fastforce
      next
        assume "j = length ?ys"
        with new True show ?thesis by simp
      qed
    qed
    have strict: "\<forall>j < length (?ys @ [y]). i < j \<longrightarrow> k ((?ys @ [y]) ! j) < k (?ys ! i)"
    proof (intro allI impI)
      fix j assume "j < length (?ys @ [y])" and ij: "i < j"
      from split [OF this(1)] show "k ((?ys @ [y]) ! j) < k (?ys ! i)"
      proof
        assume 1: "j < length ?ys"
        with rm ij nth_snoc_old [OF 1] show ?thesis by fastforce
      next
        assume "j = length ?ys"
        with new True show ?thesis by simp
      qed
    qed
    show ?thesis
      unfolding app
      apply (rule exI [of _ i])
      using r all strict nth_snoc_old [OF i(1)] i(1) by simp
  next
    case False
    have r: "foldl ?f x (xs @ [y]) = y"
      using False i(2) by simp
    have all: "\<forall>j < length (?ys @ [y]). k ((?ys @ [y]) ! j) \<le> k y"
    proof (intro allI impI)
      fix j assume "j < length (?ys @ [y])"
      from split [OF this] show "k ((?ys @ [y]) ! j) \<le> k y"
      proof
        assume 1: "j < length ?ys"
        with mx False nth_snoc_old [OF 1] show ?thesis by fastforce
      next
        assume "j = length ?ys"
        with new show ?thesis by simp
      qed
    qed
    show ?thesis
      unfolding app
      apply (rule exI [of _ "length ?ys"])
      using r all new by (simp del: nth_append_length)
  qed
qed

lemma defaultStage1_leftmost:
  "\<exists>i < length (x # xs). defaultStage1 x xs = (x # xs) ! i
      \<and> (\<forall>j < length (x # xs). heightOf ((x # xs) ! j) \<le> heightOf ((x # xs) ! i))
      \<and> (\<forall>j < i. heightOf ((x # xs) ! j) < heightOf ((x # xs) ! i))"
proof -
  have "pickBest1 = (\<lambda>best cur. if heightOf cur > heightOf best then cur else best)"
    by (intro ext) (simp add: pickBest1_def)
  then show ?thesis
    unfolding defaultStage1_def using foldl_first_max [of x xs heightOf] by simp
qed

lemma defaultStage0_rightmost:
  "\<exists>i < length (x # xs). defaultStage0 x xs = (x # xs) ! i
      \<and> (\<forall>j < length (x # xs). resolutionOf ((x # xs) ! j) \<le> resolutionOf ((x # xs) ! i))
      \<and> (\<forall>j < length (x # xs). i < j \<longrightarrow> resolutionOf ((x # xs) ! j) < resolutionOf ((x # xs) ! i))"
proof -
  have "pickBest0 = (\<lambda>best cur. if resolutionOf best > resolutionOf cur then best else cur)"
    by (intro ext) (simp add: pickBest0_def)
  then show ?thesis
    unfolding defaultStage0_def using foldl_last_max [of x xs resolutionOf] by simp
qed

section \<open>Every result comes from the filtered list\<close>

lemma defaultStage1_mem: "defaultStage1 x xs \<in> set (x # xs)"
  using defaultStage1_leftmost [of x xs] nth_mem by metis

lemma defaultStage0_mem: "defaultStage0 x xs \<in> set (x # xs)"
  using defaultStage0_rightmost [of x xs] nth_mem by metis

lemma qualityStage1_mem: "qualityStage1 qa ys = Some r \<Longrightarrow> r \<in> set ys"
  by (auto simp: qualityStage1_def find_Some_iff split: option.splits)

lemma qualityStage0_mem: "qualityStage0 lower qa ys = Some r \<Longrightarrow> r \<in> set ys"
  by (auto simp: qualityStage0_def find_Some_iff split: option.splits)

lemma selectBestFormat1_mem:
  assumes "selectBestFormat1 fs mt qa = Some r"
  shows "r \<in> set (filterFormats1 mt fs)"
proof (cases "filterFormats1 mt fs")
  case Nil
  with assms show ?thesis by (simp add: selectBestFormat1_def)
next
  case (Cons x xs)
  show ?thesis
  proof (cases "qualityStage1 qa (x # xs)")
    case None
    with Cons assms have "r = defaultStage1 x xs" by (simp add: selectBestFormat1_def)
    with Cons defaultStage1_mem [of x xs] show ?thesis by simp
  next
    case (Some b)
    with Cons assms have "r = b" by (simp add: selectBestFormat1_def)
    with Cons qualityStage1_mem [OF Some] show ?thesis by simp
  qed
qed

lemma selectBestFormat0_mem:
  assumes "selectBestFormat0 lower fs mt qa = Some r"
  shows "r \<in> set (filterFormats0 mt fs)"
proof (cases "filterFormats0 mt fs")
  case Nil
  with assms show ?thesis by (simp add: selectBestFormat0_def)
next
  case (Cons x xs)
  show ?thesis
  proof (cases "qualityStage0 lower qa (x # xs)")
    case None
    with Cons assms have "r = defaultStage0 x xs" by (simp add: selectBestFormat0_def)
    with Cons defaultStage0_mem [of x xs] show ?thesis by simp
  next
    case (Some b)
    with Cons assms have "r = b" by (simp add: selectBestFormat0_def)
    with Cons qualityStage0_mem [OF Some] show ?thesis by simp
  qed
qed

section \<open>Unfolding the model on concrete inputs\<close>

lemmas eval_string = ascii_def isWhiteSpace_def
lemmas eval_parse = parseInt_def isRadixDigit_def digitValue_def mathInt_def toNumber_def
  orZero_def toStringArg_def heightOf_def resolutionOf_def
lemmas eval_examples = fmt1080_def fmt720_def fmt720hfr_def fmt480_def fmtUnknown_def
  fmtAudioMp4_def fmtAudioWebm_def
lemmas eval_select1 = selectBestFormat1_def filterFormats1_def keepFormat1_def mp4_def
  truthyString_def qualityStage1_def defaultStage1_def withinTarget_def targetHeight_def
  qualityMap_def objectPrototypeKeys_def pickBest1_def
lemmas eval_select0 = selectBestFormat0_def filterFormats0_def keepFormat0_def mp4_def
  truthyString_def qualityStage0_def defaultStage0_def labelMatches_def asciiLower_def
  pickBest0_def

section \<open>The two stages, one at a time\<close>

lemma find_first_index:
  assumes "\<exists>f \<in> set ys. P f"
  shows "\<exists>i < length ys. find P ys = Some (ys ! i) \<and> P (ys ! i) \<and> (\<forall>j < i. \<not> P (ys ! j))"
proof -
  from assms have "find P ys \<noteq> None" by (auto simp: find_None_iff)
  then obtain r where r: "find P ys = Some r" by blast
  then obtain i where "i < length ys" "P (ys ! i)" "r = ys ! i" "\<forall>j < i. \<not> P (ys ! j)"
    unfolding find_Some_iff by blast
  with r show ?thesis by blast
qed

lemma selectBestFormat1_quality:
  assumes "filterFormats1 mt fs = ys" and "qualityStage1 qa ys = Some r"
  shows "selectBestFormat1 fs mt qa = Some r"
proof (cases ys)
  case Nil
  with assms(2) show ?thesis
    by (simp add: qualityStage1_def split: option.splits)
next
  case (Cons x xs)
  with assms show ?thesis by (simp add: selectBestFormat1_def)
qed

lemma selectBestFormat0_quality:
  assumes "filterFormats0 mt fs = ys" and "qualityStage0 lower qa ys = Some r"
  shows "selectBestFormat0 lower fs mt qa = Some r"
proof (cases ys)
  case Nil
  with assms(2) show ?thesis
    by (simp add: qualityStage0_def split: option.splits)
next
  case (Cons x xs)
  with assms show ?thesis by (simp add: selectBestFormat0_def)
qed

lemma selectBestFormat1_default:
  assumes "filterFormats1 mt fs = x # xs" and "qualityStage1 qa (x # xs) = None"
  shows "selectBestFormat1 fs mt qa = Some (defaultStage1 x xs)"
  using assms by (simp add: selectBestFormat1_def)

lemma selectBestFormat0_default:
  assumes "filterFormats0 mt fs = x # xs" and "qualityStage0 lower qa (x # xs) = None"
  shows "selectBestFormat0 lower fs mt qa = Some (defaultStage0 x xs)"
  using assms by (simp add: selectBestFormat0_def)

lemma qualityStage1_truthy: "q \<noteq> [] \<Longrightarrow> qualityStage1 (Some q) ys = find (withinTarget q) ys"
  by (simp add: qualityStage1_def truthyString_def)

lemma qualityStage0_truthy:
  "q \<noteq> [] \<Longrightarrow> qualityStage0 lower (Some q) ys = find (labelMatches lower q) ys"
  by (simp add: qualityStage0_def truthyString_def)

lemma qualityStage1_no_match:
  assumes "targetHeight q = Some t" and "\<forall>f \<in> set ys. t < heightOf f"
  shows "qualityStage1 (Some q) ys = None"
proof -
  from assms have "\<not> (\<exists>f. f \<in> set ys \<and> withinTarget q f)"
    by (auto simp: withinTarget_def)
  then have "find (withinTarget q) ys = None" by (auto simp: find_None_iff)
  then show ?thesis
    by (simp add: qualityStage1_def truthyString_def)
qed

lemma targetHeight_table:
  "targetHeight (ascii ''4320p'') = Some 4320"
  "targetHeight (ascii ''2160p'') = Some 2160"
  "targetHeight (ascii ''1440p'') = Some 1440"
  "targetHeight (ascii ''1080p'') = Some 1080"
  "targetHeight (ascii ''720p'') = Some 720"
  "targetHeight (ascii ''480p'') = Some 480"
  "targetHeight (ascii ''360p'') = Some 360"
  "targetHeight (ascii ''240p'') = Some 240"
  by (simp_all add: targetHeight_def qualityMap_def ascii_def)

lemma targetHeight_default:
  assumes "q \<notin> set (map fst qualityMap)" and "q \<notin> set objectPrototypeKeys"
  shows "targetHeight q = Some 1080"
proof -
  from assms(1) have "map_of qualityMap q = None" by (simp add: map_of_eq_None_iff)
  with assms(2) show ?thesis by (simp add: targetHeight_def)
qed

lemma qualityStage_absent:
  "qualityStage1 None ys = None" "qualityStage1 (Some []) ys = None"
  "qualityStage0 lower None ys = None" "qualityStage0 lower (Some []) ys = None"
  by (simp_all add: qualityStage1_def qualityStage0_def truthyString_def)

section \<open>The steps of sanitizeFilename\<close>

lemma length_trim: "length (trim s) \<le> length s"
proof -
  have "length (trim s) \<le> length (dropWhile isWhiteSpace s)"
    unfolding trim_def using length_dropWhile_le [of isWhiteSpace "rev (dropWhile isWhiteSpace s)"]
    by simp
  also have "\<dots> \<le> length s" by (rule length_dropWhile_le)
  finally show ?thesis .
qed

lemma set_trim: "set (trim s) \<subseteq> set s"
proof
  fix c assume "c \<in> set (trim s)"
  then have "c \<in> set (dropWhile isWhiteSpace (rev (dropWhile isWhiteSpace s)))"
    by (simp add: trim_def)
  then have "c \<in> set (rev (dropWhile isWhiteSpace s))" by (rule set_dropWhileD)
  then have "c \<in> set (dropWhile isWhiteSpace s)" by simp
  then show "c \<in> set s" by (rule set_dropWhileD)
qed

lemma last_trim: "trim s \<noteq> [] \<Longrightarrow> \<not> isWhiteSpace (last (trim s))"
proof -
  assume ne: "trim s \<noteq> []"
  let ?d = "dropWhile isWhiteSpace (rev (dropWhile isWhiteSpace s))"
  from ne have d: "?d \<noteq> []" by (simp add: trim_def)
  then have "\<not> isWhiteSpace (hd ?d)" by (rule hd_dropWhile)
  moreover from d have "last (rev ?d) = hd ?d" by (simp add: last_rev)
  ultimately show ?thesis by (simp add: trim_def)
qed

lemma hd_trim: "trim s \<noteq> [] \<Longrightarrow> \<not> isWhiteSpace (hd (trim s))"
proof -
  assume ne: "trim s \<noteq> []"
  let ?i = "dropWhile isWhiteSpace s"
  have "rev (takeWhile isWhiteSpace (rev ?i) @ dropWhile isWhiteSpace (rev ?i)) = rev (rev ?i)"
    by (simp only: takeWhile_dropWhile_id)
  then have "rev (dropWhile isWhiteSpace (rev ?i)) @ rev (takeWhile isWhiteSpace (rev ?i)) = ?i"
    by (simp only: rev_append rev_rev_ident)
  then have split: "?i = trim s @ rev (takeWhile isWhiteSpace (rev ?i))"
    by (simp only: trim_def)
  from ne split have "hd ?i = hd (trim s)" by (metis hd_append2)
  moreover have "?i \<noteq> []"
  proof
    assume "?i = []"
    with split have "trim s @ rev (takeWhile isWhiteSpace (rev ?i)) = []" by (simp only:)
    with ne show False by simp
  qed
  then have "\<not> isWhiteSpace (hd ?i)" by (rule hd_dropWhile)
  ultimately show ?thesis by simp
qed

lemma underscore_allowed: "(0x5F :: 16 word) \<notin> set forbiddenChars"
  by (simp add: forbiddenChars_def)

lemma space_allowed: "(0x20 :: 16 word) \<notin> set forbiddenChars"
  by (simp add: forbiddenChars_def)

lemma set_replaceForbidden: "c \<in> set (replaceForbidden s) \<Longrightarrow> c \<notin> set forbiddenChars"
  using underscore_allowed by (auto simp: replaceForbidden_def)

lemma nth_replaceForbidden:
  "i < length s \<Longrightarrow>
     replaceForbidden s ! i = (if s ! i \<in> set forbiddenChars then 0x5F else s ! i)"
  by (simp add: replaceForbidden_def)

lemma set_collapseWhiteSpace: "set (collapseWhiteSpace s) \<subseteq> insert 0x20 (set s)"
proof (induction s rule: collapseWhiteSpace.induct)
  case 1
  show ?case by simp
next
  case (2 c cs)
  show ?case
  proof (cases "isWhiteSpace c")
    case True
    with 2 have "set (collapseWhiteSpace (dropWhile isWhiteSpace cs))
        \<subseteq> insert 0x20 (set (dropWhile isWhiteSpace cs))" by simp
    moreover have "set (dropWhile isWhiteSpace cs) \<subseteq> set cs"
      by (auto dest: set_dropWhileD)
    ultimately show ?thesis using True by auto
  next
    case False
    with 2 show ?thesis by auto
  qed
qed

lemma default_names:
  "ascii ''video'' \<noteq> []" "length (ascii ''video'') \<le> 80"
  "\<forall>c \<in> set (ascii ''video''). c \<notin> set forbiddenChars"
  "\<not> isWhiteSpace (hd (ascii ''video''))" "\<not> isWhiteSpace (last (ascii ''video''))"
  "ascii ''youtube-video'' \<noteq> []" "length (ascii ''youtube-video'') \<le> 80"
  "\<forall>c \<in> set (ascii ''youtube-video''). c \<notin> set forbiddenChars"
  "\<not> isWhiteSpace (hd (ascii ''youtube-video''))"
  "\<not> isWhiteSpace (last (ascii ''youtube-video''))"
  by (simp_all add: ascii_def forbiddenChars_def isWhiteSpace_def)

lemma sanitized_ok:
  assumes "\<forall>c \<in> set t. c \<notin> set forbiddenChars"
    and "d \<noteq> []" "length d \<le> 80" "\<forall>c \<in> set d. c \<notin> set forbiddenChars"
    "\<not> isWhiteSpace (hd d)" "\<not> isWhiteSpace (last d)"
  defines "r \<equiv> (let r = trim (take 80 t) in if r = [] then d else r)"
  shows "r \<noteq> [] \<and> length r \<le> 80 \<and> (\<forall>c \<in> set r. c \<notin> set forbiddenChars)
     \<and> \<not> isWhiteSpace (hd r) \<and> \<not> isWhiteSpace (last r)"
proof (cases "trim (take 80 t) = []")
  case True
  then have "r = d" by (simp add: r_def)
  with assms show ?thesis by simp
next
  case False
  then have r: "r = trim (take 80 t)" by (simp add: r_def)
  have "length (trim (take 80 t)) \<le> length (take 80 t)" by (rule length_trim)
  then have len: "length r \<le> 80" by (simp add: r)
  have "set (trim (take 80 t)) \<subseteq> set t"
    using set_trim [of "take 80 t"] set_take_subset [of 80 t] by blast
  with assms(1) have chars: "\<forall>c \<in> set r. c \<notin> set forbiddenChars" by (auto simp: r)
  from False hd_trim last_trim have "\<not> isWhiteSpace (hd r)" "\<not> isWhiteSpace (last r)"
    by (simp_all add: r)
  with False len chars show ?thesis by (simp add: r)
qed

section \<open>What parseInt reads\<close>










section \<open>The first-stage filter\<close>

text \<open>
  Claim C5. For every format list, when the media kind is audio, every format kept by
  the first-stage filter has \<open>hasAudio\<close> true and \<open>hasVideo\<close> false; in the
  stricter variant (the later services) its container is \<open>mp4\<close> as well.
\<close>

theorem audio_filter_keeps_audio_only:
  "(\<forall>f \<in> set (filterFormats1 Audio fs).
      hasAudio f \<and> \<not> hasVideo f \<and> container f = ascii ''mp4'')
   \<and> (\<forall>f \<in> set (filterFormats0 Audio fs). hasAudio f \<and> \<not> hasVideo f)"
  by (simp add: filterFormats1_def filterFormats0_def keepFormat1_def keepFormat0_def mp4_def)

theorem audio_filter_keeps_audio_only_witness:
  "filterFormats1 Audio [fmt1080, fmtAudioWebm, fmtAudioMp4] = [fmtAudioMp4]
   \<and> hasAudio fmtAudioMp4 \<and> \<not> hasVideo fmtAudioMp4 \<and> container fmtAudioMp4 = ascii ''mp4''
   \<and> filterFormats0 Audio [fmt1080, fmtAudioWebm, fmtAudioMp4] = [fmtAudioWebm, fmtAudioMp4]
   \<and> hasAudio fmtAudioWebm \<and> \<not> hasVideo fmtAudioWebm"
proof -
  have a: "filterFormats1 Audio [fmt1080, fmtAudioWebm, fmtAudioMp4] = [fmtAudioMp4]"
    by (simp add: filterFormats1_def keepFormat1_def mp4_def eval_examples eval_string)
  have b: "filterFormats0 Audio [fmt1080, fmtAudioWebm, fmtAudioMp4] = [fmtAudioWebm, fmtAudioMp4]"
    by (simp add: filterFormats0_def keepFormat0_def mp4_def eval_examples eval_string)
  from a b audio_filter_keeps_audio_only [of "[fmt1080, fmtAudioWebm, fmtAudioMp4]"]
  show ?thesis by simp
qed

text \<open>
  Claim C6. For every format list, when the media kind is video, every format kept by
  the first-stage filter has \<open>hasVideo\<close> and \<open>hasAudio\<close> true and the container
  \<open>mp4\<close>, in all services.
\<close>

theorem video_filter_keeps_mp4_with_both_tracks:
  "(\<forall>f \<in> set (filterFormats1 Video fs).
      hasVideo f \<and> hasAudio f \<and> container f = ascii ''mp4'')
   \<and> (\<forall>f \<in> set (filterFormats0 Video fs).
      hasVideo f \<and> hasAudio f \<and> container f = ascii ''mp4'')"
  by (simp add: filterFormats1_def filterFormats0_def keepFormat1_def keepFormat0_def mp4_def)

theorem video_filter_keeps_mp4_with_both_tracks_witness:
  "filterFormats1 Video [fmtAudioMp4, fmt720, fmtAudioWebm] = [fmt720]
   \<and> filterFormats0 Video [fmtAudioMp4, fmt720, fmtAudioWebm] = [fmt720]
   \<and> hasVideo fmt720 \<and> hasAudio fmt720 \<and> container fmt720 = ascii ''mp4''"
proof -
  have a: "filterFormats1 Video [fmtAudioMp4, fmt720, fmtAudioWebm] = [fmt720]"
    by (simp add: filterFormats1_def keepFormat1_def mp4_def eval_examples eval_string)
  have b: "filterFormats0 Video [fmtAudioMp4, fmt720, fmtAudioWebm] = [fmt720]"
    by (simp add: filterFormats0_def keepFormat0_def mp4_def eval_examples eval_string)
  from a b video_filter_keeps_mp4_with_both_tracks [of "[fmtAudioMp4, fmt720, fmtAudioWebm]"]
  show ?thesis by simp
qed

section \<open>The result of selectBestFormat\<close>

text \<open>
  Claim C4. For every format list, if the filter for the given media kind keeps nothing,
  \<open>selectBestFormat\<close> returns \<open>null\<close>, whatever the quality argument is and
  whether or not it is supplied.
\<close>

theorem selectBestFormat_empty_filter_gives_null:
  "(filterFormats1 mt fs = [] \<longrightarrow> selectBestFormat1 fs mt qualityArg = None)
   \<and> (filterFormats0 mt fs = [] \<longrightarrow> selectBestFormat0 lower fs mt qualityArg = None)"
  by (simp add: selectBestFormat1_def selectBestFormat0_def)

theorem selectBestFormat_empty_filter_gives_null_witness:
  "filterFormats1 Video [fmtAudioMp4, fmtAudioWebm] = []
   \<and> selectBestFormat1 [fmtAudioMp4, fmtAudioWebm] Video (Some (ascii ''720p'')) = None
   \<and> filterFormats0 Video [fmtAudioMp4, fmtAudioWebm] = []
   \<and> selectBestFormat0 asciiLower [fmtAudioMp4, fmtAudioWebm] Video (Some (ascii ''tiny'')) = None"
proof -
  have a: "filterFormats1 Video [fmtAudioMp4, fmtAudioWebm] = []"
    by (simp add: filterFormats1_def keepFormat1_def eval_examples)
  have b: "filterFormats0 Video [fmtAudioMp4, fmtAudioWebm] = []"
    by (simp add: filterFormats0_def keepFormat0_def eval_examples)
  from a b selectBestFormat_empty_filter_gives_null
    [of Video "[fmtAudioMp4, fmtAudioWebm]" "Some (ascii ''720p'')" asciiLower]
    selectBestFormat_empty_filter_gives_null
    [of Video "[fmtAudioMp4, fmtAudioWebm]" "Some (ascii ''tiny'')" asciiLower]
  show ?thesis by blast
qed

text \<open>
  Claim C10. Whenever \<open>selectBestFormat\<close> returns a descriptor, it is an element of
  the input list, and of the sublist the filter keeps for the media kind: the function
  returns a descriptor of its input as it is.
\<close>

theorem selectBestFormat_result_is_input_element:
  "(selectBestFormat1 fs mt qualityArg = Some r \<longrightarrow>
      r \<in> set fs \<and> r \<in> set (filterFormats1 mt fs))
   \<and> (selectBestFormat0 lower fs mt qualityArg = Some r \<longrightarrow>
      r \<in> set fs \<and> r \<in> set (filterFormats0 mt fs))"
  using selectBestFormat1_mem [of fs mt qualityArg r]
    selectBestFormat0_mem [of lower fs mt qualityArg r]
  by (auto simp: filterFormats1_def filterFormats0_def)

theorem selectBestFormat_result_is_input_element_witness:
  "selectBestFormat1 [fmtAudioWebm, fmt1080, fmt720] Video (Some (ascii ''720p'')) = Some fmt720
   \<and> fmt720 \<in> set [fmtAudioWebm, fmt1080, fmt720]
   \<and> fmt720 \<in> set (filterFormats1 Video [fmtAudioWebm, fmt1080, fmt720])
   \<and> selectBestFormat0 asciiLower [fmtAudioWebm, fmt1080, fmt720] Video (Some (ascii ''720P'')) = Some fmt720
   \<and> fmt720 \<in> set (filterFormats0 Video [fmtAudioWebm, fmt1080, fmt720])"
proof -
  have a: "selectBestFormat1 [fmtAudioWebm, fmt1080, fmt720] Video (Some (ascii ''720p'')) = Some fmt720"
    by (simp add: eval_select1 eval_examples eval_parse eval_string)
  have b: "selectBestFormat0 asciiLower [fmtAudioWebm, fmt1080, fmt720] Video (Some (ascii ''720P'')) = Some fmt720"
    by (simp add: eval_select0 eval_examples eval_parse eval_string)
  from a b selectBestFormat_result_is_input_element
    [of "[fmtAudioWebm, fmt1080, fmt720]" Video "Some (ascii ''720p'')" fmt720 asciiLower]
    selectBestFormat_result_is_input_element
    [of "[fmtAudioWebm, fmt1080, fmt720]" Video "Some (ascii ''720P'')" fmt720 asciiLower]
  show ?thesis by blast
qed

section \<open>The quality stage\<close>

text \<open>
  Claim C1, as amended. In the later services the target height of a label is read from
  the table 4320p, 2160p, 1440p, 1080p, 720p, 480p, 360p, 240p, and is 1080 for every
  other label that is not the name of a property inherited from \<open>Object.prototype\<close>.
  For a non-empty label whose target is a number, if some descriptor of the filtered list
  has a parsed height at most the target, the first such descriptor in the order of the
  list is returned. The first service has no table: it returns the first descriptor of
  the filtered list whose lower-cased quality label contains the lower-cased label asked
  for, when there is one.
\<close>

theorem quality_stage_first_match:
  "targetHeight (ascii ''4320p'') = Some 4320 \<and> targetHeight (ascii ''2160p'') = Some 2160
   \<and> targetHeight (ascii ''1440p'') = Some 1440 \<and> targetHeight (ascii ''1080p'') = Some 1080
   \<and> targetHeight (ascii ''720p'') = Some 720 \<and> targetHeight (ascii ''480p'') = Some 480
   \<and> targetHeight (ascii ''360p'') = Some 360 \<and> targetHeight (ascii ''240p'') = Some 240
   \<and> (q \<notin> set (map ascii [''4320p'', ''2160p'', ''1440p'', ''1080p'', ''720p'', ''480p'',
          ''360p'', ''240p'']) \<and> q \<notin> set objectPrototypeKeys
        \<longrightarrow> targetHeight q = Some 1080)
   \<and> (filterFormats1 mt fs = ys \<and> q \<noteq> [] \<and> targetHeight q = Some t
        \<and> (\<exists>f \<in> set ys. heightOf f \<le> t)
        \<longrightarrow> (\<exists>i < length ys. selectBestFormat1 fs mt (Some q) = Some (ys ! i)
              \<and> heightOf (ys ! i) \<le> t \<and> (\<forall>j < i. t < heightOf (ys ! j))))
   \<and> (filterFormats0 mt fs = zs \<and> q \<noteq> [] \<and> (\<exists>f \<in> set zs. labelMatches lower q f)
        \<longrightarrow> (\<exists>i < length zs. selectBestFormat0 lower fs mt (Some q) = Some (zs ! i)
              \<and> labelMatches lower q (zs ! i) \<and> (\<forall>j < i. \<not> labelMatches lower q (zs ! j))))"
proof -
  have dflt: "q \<notin> set (map ascii [''4320p'', ''2160p'', ''1440p'', ''1080p'', ''720p'', ''480p'',
          ''360p'', ''240p'']) \<and> q \<notin> set objectPrototypeKeys
        \<longrightarrow> targetHeight q = Some 1080"
  proof
    assume a: "q \<notin> set (map ascii [''4320p'', ''2160p'', ''1440p'', ''1080p'', ''720p'', ''480p'',
          ''360p'', ''240p'']) \<and> q \<notin> set objectPrototypeKeys"
    have "map fst qualityMap = map ascii [''4320p'', ''2160p'', ''1440p'', ''1080p'', ''720p'',
          ''480p'', ''360p'', ''240p'']"
      by (simp add: qualityMap_def)
    with a show "targetHeight q = Some 1080"
      using targetHeight_default [of q] by simp
  qed
  have one: "filterFormats1 mt fs = ys \<and> q \<noteq> [] \<and> targetHeight q = Some t
        \<and> (\<exists>f \<in> set ys. heightOf f \<le> t)
        \<longrightarrow> (\<exists>i < length ys. selectBestFormat1 fs mt (Some q) = Some (ys ! i)
              \<and> heightOf (ys ! i) \<le> t \<and> (\<forall>j < i. t < heightOf (ys ! j)))"
  proof
    assume a: "filterFormats1 mt fs = ys \<and> q \<noteq> [] \<and> targetHeight q = Some t
        \<and> (\<exists>f \<in> set ys. heightOf f \<le> t)"
    then have wt: "\<And>f. withinTarget q f \<longleftrightarrow> heightOf f \<le> t"
      by (simp add: withinTarget_def)
    from a have "\<exists>f \<in> set ys. withinTarget q f" by (simp add: wt)
    from find_first_index [OF this] obtain i where i: "i < length ys"
      "find (withinTarget q) ys = Some (ys ! i)" "withinTarget q (ys ! i)"
      "\<forall>j < i. \<not> withinTarget q (ys ! j)" by blast
    from a i(2) have "qualityStage1 (Some q) ys = Some (ys ! i)"
      by (simp add: qualityStage1_truthy)
    with a have "selectBestFormat1 fs mt (Some q) = Some (ys ! i)"
      using selectBestFormat1_quality by blast
    moreover from i(3) have "heightOf (ys ! i) \<le> t" by (simp add: wt)
    moreover from i(4) have "\<forall>j < i. t < heightOf (ys ! j)" by (simp add: wt not_le)
    ultimately show "\<exists>i < length ys. selectBestFormat1 fs mt (Some q) = Some (ys ! i)
              \<and> heightOf (ys ! i) \<le> t \<and> (\<forall>j < i. t < heightOf (ys ! j))"
      using i(1) by blast
  qed
  have zero: "filterFormats0 mt fs = zs \<and> q \<noteq> [] \<and> (\<exists>f \<in> set zs. labelMatches lower q f)
        \<longrightarrow> (\<exists>i < length zs. selectBestFormat0 lower fs mt (Some q) = Some (zs ! i)
              \<and> labelMatches lower q (zs ! i) \<and> (\<forall>j < i. \<not> labelMatches lower q (zs ! j)))"
  proof
    assume a: "filterFormats0 mt fs = zs \<and> q \<noteq> [] \<and> (\<exists>f \<in> set zs. labelMatches lower q f)"
    then have "\<exists>f \<in> set zs. labelMatches lower q f" by simp
    from find_first_index [OF this] obtain i where i: "i < length zs"
      "find (labelMatches lower q) zs = Some (zs ! i)" "labelMatches lower q (zs ! i)"
      "\<forall>j < i. \<not> labelMatches lower q (zs ! j)" by blast
    from a i(2) have "qualityStage0 lower (Some q) zs = Some (zs ! i)"
      by (simp add: qualityStage0_truthy)
    with a have "selectBestFormat0 lower fs mt (Some q) = Some (zs ! i)"
      using selectBestFormat0_quality by blast
    with i show "\<exists>i < length zs. selectBestFormat0 lower fs mt (Some q) = Some (zs ! i)
              \<and> labelMatches lower q (zs ! i) \<and> (\<forall>j < i. \<not> labelMatches lower q (zs ! j))"
      by blast
  qed
  from targetHeight_table dflt one zero show ?thesis by (intro conjI)
qed


theorem quality_stage_first_match_witness:
  "filterFormats1 Video [fmt1080, fmt720, fmt480] = [fmt1080, fmt720, fmt480]
   \<and> ascii ''720p'' \<noteq> [] \<and> targetHeight (ascii ''720p'') = Some 720
   \<and> fmt720 \<in> set [fmt1080, fmt720, fmt480] \<and> heightOf fmt720 \<le> 720
   \<and> (\<exists>i < length [fmt1080, fmt720, fmt480].
         selectBestFormat1 [fmt1080, fmt720, fmt480] Video (Some (ascii ''720p''))
           = Some ([fmt1080, fmt720, fmt480] ! i)
         \<and> heightOf ([fmt1080, fmt720, fmt480] ! i) \<le> 720
         \<and> (\<forall>j < i. 720 < heightOf ([fmt1080, fmt720, fmt480] ! j)))
   \<and> selectBestFormat1 [fmt1080, fmt720, fmt480] Video (Some (ascii ''720p'')) = Some fmt720
   \<and> filterFormats0 Video [fmt1080, fmt720, fmt480] = [fmt1080, fmt720, fmt480]
   \<and> labelMatches asciiLower (ascii ''720p'') fmt720
   \<and> (\<exists>i < length [fmt1080, fmt720, fmt480].
         selectBestFormat0 asciiLower [fmt1080, fmt720, fmt480] Video (Some (ascii ''720p''))
           = Some ([fmt1080, fmt720, fmt480] ! i)
         \<and> labelMatches asciiLower (ascii ''720p'') ([fmt1080, fmt720, fmt480] ! i)
         \<and> (\<forall>j < i. \<not> labelMatches asciiLower (ascii ''720p'') ([fmt1080, fmt720, fmt480] ! j)))
   \<and> selectBestFormat0 asciiLower [fmt1080, fmt720, fmt480] Video (Some (ascii ''720p''))
       = Some fmt720"
proof -
  let ?fs = "[fmt1080, fmt720, fmt480]"
  let ?q = "ascii ''720p''"
  note t = quality_stage_first_match [of ?q Video ?fs ?fs 720 ?fs asciiLower]
  have f1: "filterFormats1 Video ?fs = ?fs"
    by (simp add: filterFormats1_def keepFormat1_def mp4_def eval_examples eval_string)
  have f0: "filterFormats0 Video ?fs = ?fs"
    by (simp add: filterFormats0_def keepFormat0_def mp4_def eval_examples eval_string)
  have q: "?q \<noteq> []" by (simp add: ascii_def)
  have th: "targetHeight ?q = Some 720"
    by (simp add: targetHeight_def qualityMap_def ascii_def)
  have h: "heightOf fmt720 \<le> 720"
    by (simp add: fmt720_def eval_parse eval_string)
  have m: "labelMatches asciiLower ?q fmt720"
    by (simp add: labelMatches_def asciiLower_def fmt720_def ascii_def)
  have mem: "fmt720 \<in> set ?fs" by simp
  from t have one: "filterFormats1 Video ?fs = ?fs \<and> ?q \<noteq> [] \<and> targetHeight ?q = Some 720
        \<and> (\<exists>f \<in> set ?fs. heightOf f \<le> 720)
        \<longrightarrow> (\<exists>i < length ?fs. selectBestFormat1 ?fs Video (Some ?q) = Some (?fs ! i)
              \<and> heightOf (?fs ! i) \<le> 720 \<and> (\<forall>j < i. 720 < heightOf (?fs ! j)))"
    by (elim conjE)
  from t have zero: "filterFormats0 Video ?fs = ?fs \<and> ?q \<noteq> []
        \<and> (\<exists>f \<in> set ?fs. labelMatches asciiLower ?q f)
        \<longrightarrow> (\<exists>i < length ?fs. selectBestFormat0 asciiLower ?fs Video (Some ?q) = Some (?fs ! i)
              \<and> labelMatches asciiLower ?q (?fs ! i)
              \<and> (\<forall>j < i. \<not> labelMatches asciiLower ?q (?fs ! j)))"
    by (elim conjE)
  from h mem have ex1: "\<exists>f \<in> set ?fs. heightOf f \<le> 720" by blast
  from m mem have ex0: "\<exists>f \<in> set ?fs. labelMatches asciiLower ?q f" by blast
  from one f1 q th ex1 have c1: "\<exists>i < length ?fs. selectBestFormat1 ?fs Video (Some ?q) = Some (?fs ! i)
              \<and> heightOf (?fs ! i) \<le> 720 \<and> (\<forall>j < i. 720 < heightOf (?fs ! j))"
    by blast
  from zero f0 q ex0 have c0: "\<exists>i < length ?fs. selectBestFormat0 asciiLower ?fs Video (Some ?q) = Some (?fs ! i)
              \<and> labelMatches asciiLower ?q (?fs ! i)
              \<and> (\<forall>j < i. \<not> labelMatches asciiLower ?q (?fs ! j))"
    by blast
  have r1: "selectBestFormat1 ?fs Video (Some ?q) = Some fmt720"
    by (simp add: eval_select1 eval_examples eval_parse eval_string)
  have r0: "selectBestFormat0 asciiLower ?fs Video (Some ?q) = Some fmt720"
    by (simp add: eval_select0 eval_examples eval_parse eval_string)
  from f1 q th mem h c1 r1 f0 m c0 r0 show ?thesis by (intro conjI)
qed

text \<open>
  The statement without the amendment fails twice. In the first service the label
  \<open>720p\<close> selects the descriptor labelled \<open>720p\<close> although a descriptor of height
  480 comes first. In the later services the label \<open>constructor\<close> is not in the
  table, yet the descriptor of height 720, within 1080, is passed over.
\<close>

theorem quality_stage_counterexample:
  "filterFormats0 Video [fmt480, fmt720] = [fmt480, fmt720]
   \<and> resolutionOf fmt480 = 480 \<and> heightOf fmt480 = 480
   \<and> selectBestFormat0 asciiLower [fmt480, fmt720] Video (Some (ascii ''720p'')) = Some fmt720
   \<and> fmt720 \<noteq> fmt480
   \<and> filterFormats1 Video [fmt720, fmt1080] = [fmt720, fmt1080]
   \<and> heightOf fmt720 = 720
   \<and> selectBestFormat1 [fmt720, fmt1080] Video (Some (ascii ''constructor'')) = Some fmt1080
   \<and> fmt1080 \<noteq> fmt720"
proof -
  have a: "filterFormats0 Video [fmt480, fmt720] = [fmt480, fmt720]"
    by (simp add: filterFormats0_def keepFormat0_def mp4_def eval_examples eval_string)
  have b: "resolutionOf fmt480 = 480" "heightOf fmt480 = 480" "heightOf fmt720 = 720"
    by (simp_all add: fmt480_def fmt720_def eval_parse eval_string)
  have c: "selectBestFormat0 asciiLower [fmt480, fmt720] Video (Some (ascii ''720p'')) = Some fmt720"
    by (simp add: eval_select0 eval_examples eval_parse eval_string)
  have d: "fmt720 \<noteq> fmt480" "fmt1080 \<noteq> fmt720"
    by (simp_all add: eval_examples eval_string)
  have e: "filterFormats1 Video [fmt720, fmt1080] = [fmt720, fmt1080]"
    by (simp add: filterFormats1_def keepFormat1_def mp4_def eval_examples eval_string)
  have f: "selectBestFormat1 [fmt720, fmt1080] Video (Some (ascii ''constructor'')) = Some fmt1080"
    by (simp add: eval_select1 eval_examples eval_parse eval_string)
  from a b c d e f show ?thesis by (intro conjI)
qed

section \<open>The default stage\<close>

text \<open>
  Claim C2, as amended. When no quality is supplied, or the quality stage finds nothing,
  a non-empty filtered list yields a descriptor of greatest parsed height. Among several
  of that height the later services return the leftmost, the first service the rightmost.
\<close>

theorem default_stage_returns_maximum:
  "(filterFormats1 mt fs = x # xs \<and> qualityStage1 qualityArg (x # xs) = None \<longrightarrow>
      (\<exists>i < length (x # xs). selectBestFormat1 fs mt qualityArg = Some ((x # xs) ! i)
         \<and> (\<forall>j < length (x # xs). heightOf ((x # xs) ! j) \<le> heightOf ((x # xs) ! i))
         \<and> (\<forall>j < i. heightOf ((x # xs) ! j) < heightOf ((x # xs) ! i))))
   \<and> (filterFormats0 mt fs = x # xs \<and> qualityStage0 lower qualityArg (x # xs) = None \<longrightarrow>
      (\<exists>i < length (x # xs). selectBestFormat0 lower fs mt qualityArg = Some ((x # xs) ! i)
         \<and> (\<forall>j < length (x # xs). resolutionOf ((x # xs) ! j) \<le> resolutionOf ((x # xs) ! i))
         \<and> (\<forall>j < length (x # xs). i < j \<longrightarrow>
               resolutionOf ((x # xs) ! j) < resolutionOf ((x # xs) ! i))))
   \<and> qualityStage1 None (x # xs) = None \<and> qualityStage0 lower None (x # xs) = None"
proof -
  have one: "filterFormats1 mt fs = x # xs \<and> qualityStage1 qualityArg (x # xs) = None \<longrightarrow>
      (\<exists>i < length (x # xs). selectBestFormat1 fs mt qualityArg = Some ((x # xs) ! i)
         \<and> (\<forall>j < length (x # xs). heightOf ((x # xs) ! j) \<le> heightOf ((x # xs) ! i))
         \<and> (\<forall>j < i. heightOf ((x # xs) ! j) < heightOf ((x # xs) ! i)))"
  proof
    assume "filterFormats1 mt fs = x # xs \<and> qualityStage1 qualityArg (x # xs) = None"
    then have "selectBestFormat1 fs mt qualityArg = Some (defaultStage1 x xs)"
      using selectBestFormat1_default by blast
    with defaultStage1_leftmost [of x xs]
    show "\<exists>i < length (x # xs). selectBestFormat1 fs mt qualityArg = Some ((x # xs) ! i)
         \<and> (\<forall>j < length (x # xs). heightOf ((x # xs) ! j) \<le> heightOf ((x # xs) ! i))
         \<and> (\<forall>j < i. heightOf ((x # xs) ! j) < heightOf ((x # xs) ! i))"
      by (simp only: option.inject)
  qed
  have zero: "filterFormats0 mt fs = x # xs \<and> qualityStage0 lower qualityArg (x # xs) = None \<longrightarrow>
      (\<exists>i < length (x # xs). selectBestFormat0 lower fs mt qualityArg = Some ((x # xs) ! i)
         \<and> (\<forall>j < length (x # xs). resolutionOf ((x # xs) ! j) \<le> resolutionOf ((x # xs) ! i))
         \<and> (\<forall>j < length (x # xs). i < j \<longrightarrow>
               resolutionOf ((x # xs) ! j) < resolutionOf ((x # xs) ! i)))"
  proof
    assume "filterFormats0 mt fs = x # xs \<and> qualityStage0 lower qualityArg (x # xs) = None"
    then have "selectBestFormat0 lower fs mt qualityArg = Some (defaultStage0 x xs)"
      using selectBestFormat0_default by blast
    with defaultStage0_rightmost [of x xs]
    show "\<exists>i < length (x # xs). selectBestFormat0 lower fs mt qualityArg = Some ((x # xs) ! i)
         \<and> (\<forall>j < length (x # xs). resolutionOf ((x # xs) ! j) \<le> resolutionOf ((x # xs) ! i))
         \<and> (\<forall>j < length (x # xs). i < j \<longrightarrow>
               resolutionOf ((x # xs) ! j) < resolutionOf ((x # xs) ! i))"
      by (simp only: option.inject)
  qed
  from one zero qualityStage_absent(1) [of "x # xs"] qualityStage_absent(3) [of lower "x # xs"]
  show ?thesis by (intro conjI)
qed

theorem default_stage_returns_maximum_witness:
  "filterFormats1 Video [fmt480, fmt720, fmt720hfr] = [fmt480, fmt720, fmt720hfr]
   \<and> qualityStage1 None [fmt480, fmt720, fmt720hfr] = None
   \<and> (\<exists>i < length [fmt480, fmt720, fmt720hfr].
        selectBestFormat1 [fmt480, fmt720, fmt720hfr] Video None = Some ([fmt480, fmt720, fmt720hfr] ! i)
        \<and> (\<forall>j < length [fmt480, fmt720, fmt720hfr].
              heightOf ([fmt480, fmt720, fmt720hfr] ! j) \<le> heightOf ([fmt480, fmt720, fmt720hfr] ! i))
        \<and> (\<forall>j < i. heightOf ([fmt480, fmt720, fmt720hfr] ! j) < heightOf ([fmt480, fmt720, fmt720hfr] ! i)))
   \<and> selectBestFormat1 [fmt480, fmt720, fmt720hfr] Video None = Some fmt720
   \<and> filterFormats0 Video [fmt480, fmt720, fmt720hfr] = [fmt480, fmt720, fmt720hfr]
   \<and> qualityStage0 asciiLower None [fmt480, fmt720, fmt720hfr] = None
   \<and> (\<exists>i < length [fmt480, fmt720, fmt720hfr].
        selectBestFormat0 asciiLower [fmt480, fmt720, fmt720hfr] Video None
          = Some ([fmt480, fmt720, fmt720hfr] ! i)
        \<and> (\<forall>j < length [fmt480, fmt720, fmt720hfr].
              resolutionOf ([fmt480, fmt720, fmt720hfr] ! j) \<le> resolutionOf ([fmt480, fmt720, fmt720hfr] ! i))
        \<and> (\<forall>j < length [fmt480, fmt720, fmt720hfr]. i < j \<longrightarrow>
              resolutionOf ([fmt480, fmt720, fmt720hfr] ! j) < resolutionOf ([fmt480, fmt720, fmt720hfr] ! i)))
   \<and> selectBestFormat0 asciiLower [fmt480, fmt720, fmt720hfr] Video None = Some fmt720hfr"
proof -
  let ?fs = "[fmt480, fmt720, fmt720hfr]"
  note t = default_stage_returns_maximum [of Video ?fs fmt480 "[fmt720, fmt720hfr]" None asciiLower]
  have f1: "filterFormats1 Video ?fs = ?fs"
    by (simp add: filterFormats1_def keepFormat1_def mp4_def eval_examples eval_string)
  have f0: "filterFormats0 Video ?fs = ?fs"
    by (simp add: filterFormats0_def keepFormat0_def mp4_def eval_examples eval_string)
  have q1: "qualityStage1 None ?fs = None"
    by (simp add: qualityStage1_def truthyString_def)
  have q0: "qualityStage0 asciiLower None ?fs = None"
    by (simp add: qualityStage0_def truthyString_def)
  from t f1 q1 have c1: "\<exists>i < length ?fs.
        selectBestFormat1 ?fs Video None = Some (?fs ! i)
        \<and> (\<forall>j < length ?fs. heightOf (?fs ! j) \<le> heightOf (?fs ! i))
        \<and> (\<forall>j < i. heightOf (?fs ! j) < heightOf (?fs ! i))"
    by blast
  from t f0 q0 have c0: "\<exists>i < length ?fs.
        selectBestFormat0 asciiLower ?fs Video None = Some (?fs ! i)
        \<and> (\<forall>j < length ?fs. resolutionOf (?fs ! j) \<le> resolutionOf (?fs ! i))
        \<and> (\<forall>j < length ?fs. i < j \<longrightarrow> resolutionOf (?fs ! j) < resolutionOf (?fs ! i))"
    by blast
  have r1: "selectBestFormat1 ?fs Video None = Some fmt720"
    by (simp add: eval_select1 eval_examples eval_parse eval_string)
  have r0: "selectBestFormat0 asciiLower ?fs Video None = Some fmt720hfr"
    by (simp add: eval_select0 eval_examples eval_parse eval_string)
  from f1 q1 c1 r1 f0 q0 c0 r0 show ?thesis by (intro conjI)
qed

text \<open>
  In the first service two descriptors of height 720 give the second one, not the first.
\<close>

theorem default_stage_tie_counterexample:
  "filterFormats0 Video [fmt720, fmt720hfr] = [fmt720, fmt720hfr]
   \<and> resolutionOf fmt720 = 720 \<and> resolutionOf fmt720hfr = 720
   \<and> selectBestFormat0 asciiLower [fmt720, fmt720hfr] Video None = Some fmt720hfr
   \<and> fmt720hfr \<noteq> fmt720"
proof -
  have a: "filterFormats0 Video [fmt720, fmt720hfr] = [fmt720, fmt720hfr]"
    by (simp add: filterFormats0_def keepFormat0_def mp4_def eval_examples eval_string)
  have b: "resolutionOf fmt720 = 720" "resolutionOf fmt720hfr = 720"
    by (simp_all add: fmt720_def fmt720hfr_def eval_parse eval_string)
  have c: "selectBestFormat0 asciiLower [fmt720, fmt720hfr] Video None = Some fmt720hfr"
    by (simp add: eval_select0 eval_examples eval_parse eval_string)
  have d: "fmt720hfr \<noteq> fmt720"
    by (simp add: eval_examples eval_string)
  from a b c d show ?thesis by (intro conjI)
qed

text \<open>
  Claim C3. For every format list whose filtered sublist is not empty,
  \<open>selectBestFormat\<close> returns a descriptor, never \<open>null\<close>. When a quality label
  is supplied and every filtered descriptor is higher than the target height, the result
  is that of the default stage, the same as with no quality at all.
\<close>

theorem selectBestFormat_falls_through_to_default:
  "(filterFormats1 mt fs = x # xs \<longrightarrow>
      (\<exists>r. selectBestFormat1 fs mt qualityArg = Some r)
      \<and> selectBestFormat1 fs mt None = Some (defaultStage1 x xs)
      \<and> (\<forall>q t. qualityArg = Some q \<and> targetHeight q = Some t
             \<and> (\<forall>f \<in> set (x # xs). t < heightOf f)
           \<longrightarrow> selectBestFormat1 fs mt qualityArg = Some (defaultStage1 x xs)))
   \<and> (filterFormats0 mt fs \<noteq> [] \<longrightarrow> (\<exists>r. selectBestFormat0 lower fs mt qualityArg = Some r))"
proof -
  have one: "filterFormats1 mt fs = x # xs \<longrightarrow>
      (\<exists>r. selectBestFormat1 fs mt qualityArg = Some r)
      \<and> selectBestFormat1 fs mt None = Some (defaultStage1 x xs)
      \<and> (\<forall>q t. qualityArg = Some q \<and> targetHeight q = Some t
             \<and> (\<forall>f \<in> set (x # xs). t < heightOf f)
           \<longrightarrow> selectBestFormat1 fs mt qualityArg = Some (defaultStage1 x xs))"
  proof
    assume f: "filterFormats1 mt fs = x # xs"
    have a: "\<exists>r. selectBestFormat1 fs mt qualityArg = Some r"
      using f by (simp add: selectBestFormat1_def split: option.splits)
    have b: "selectBestFormat1 fs mt None = Some (defaultStage1 x xs)"
      using selectBestFormat1_default [OF f qualityStage_absent(1)] .
    have c: "\<forall>q t. qualityArg = Some q \<and> targetHeight q = Some t
             \<and> (\<forall>f \<in> set (x # xs). t < heightOf f)
           \<longrightarrow> selectBestFormat1 fs mt qualityArg = Some (defaultStage1 x xs)"
    proof (intro allI impI)
      fix q t
      assume h: "qualityArg = Some q \<and> targetHeight q = Some t
             \<and> (\<forall>f \<in> set (x # xs). t < heightOf f)"
      then have "qualityStage1 qualityArg (x # xs) = None"
        using qualityStage1_no_match [of q t "x # xs"] by simp
      from selectBestFormat1_default [OF f this]
      show "selectBestFormat1 fs mt qualityArg = Some (defaultStage1 x xs)" .
    qed
    from a b c show "(\<exists>r. selectBestFormat1 fs mt qualityArg = Some r)
      \<and> selectBestFormat1 fs mt None = Some (defaultStage1 x xs)
      \<and> (\<forall>q t. qualityArg = Some q \<and> targetHeight q = Some t
             \<and> (\<forall>f \<in> set (x # xs). t < heightOf f)
           \<longrightarrow> selectBestFormat1 fs mt qualityArg = Some (defaultStage1 x xs))"
      by (intro conjI)
  qed
  have zero: "filterFormats0 mt fs \<noteq> [] \<longrightarrow> (\<exists>r. selectBestFormat0 lower fs mt qualityArg = Some r)"
    by (simp add: selectBestFormat0_def split: list.splits option.splits)
  from one zero show ?thesis by (intro conjI)
qed

theorem selectBestFormat_falls_through_to_default_witness:
  "filterFormats1 Video [fmtAudioWebm, fmt720, fmt1080] = [fmt720, fmt1080]
   \<and> targetHeight (ascii ''480p'') = Some 480
   \<and> 480 < heightOf fmt720 \<and> 480 < heightOf fmt1080
   \<and> selectBestFormat1 [fmtAudioWebm, fmt720, fmt1080] Video (Some (ascii ''480p''))
       = Some (defaultStage1 fmt720 [fmt1080])
   \<and> defaultStage1 fmt720 [fmt1080] = fmt1080
   \<and> selectBestFormat1 [fmtAudioWebm, fmt720, fmt1080] Video None = Some (defaultStage1 fmt720 [fmt1080])
   \<and> filterFormats0 Video [fmtAudioWebm, fmt720, fmt1080] \<noteq> []
   \<and> (\<exists>r. selectBestFormat0 asciiLower [fmtAudioWebm, fmt720, fmt1080] Video
             (Some (ascii ''480p'')) = Some r)"
proof -
  let ?fs = "[fmtAudioWebm, fmt720, fmt1080]"
  note t = selectBestFormat_falls_through_to_default
    [of Video ?fs fmt720 "[fmt1080]" "Some (ascii ''480p'')" asciiLower]
  have f1: "filterFormats1 Video ?fs = [fmt720, fmt1080]"
    by (simp add: filterFormats1_def keepFormat1_def mp4_def eval_examples eval_string)
  have f0: "filterFormats0 Video ?fs \<noteq> []"
    by (simp add: filterFormats0_def keepFormat0_def mp4_def eval_examples eval_string)
  have th: "targetHeight (ascii ''480p'') = Some 480"
    by (simp add: targetHeight_def qualityMap_def ascii_def)
  have h: "480 < heightOf fmt720" "480 < heightOf fmt1080"
    by (simp_all add: fmt720_def fmt1080_def eval_parse eval_string)
  then have all: "\<forall>f \<in> set [fmt720, fmt1080]. 480 < heightOf f" by simp
  from t f1 th all
  have c: "selectBestFormat1 ?fs Video (Some (ascii ''480p'')) = Some (defaultStage1 fmt720 [fmt1080])"
    by blast
  from t f1 have n: "selectBestFormat1 ?fs Video None = Some (defaultStage1 fmt720 [fmt1080])"
    by blast
  from t f0 have z: "\<exists>r. selectBestFormat0 asciiLower ?fs Video (Some (ascii ''480p'')) = Some r"
    by blast
  have d: "defaultStage1 fmt720 [fmt1080] = fmt1080"
    by (simp add: defaultStage1_def pickBest1_def fmt720_def fmt1080_def eval_parse eval_string)
  from f1 th h c d n f0 z show ?thesis by (intro conjI)
qed

section \<open>Metadata retrieval\<close>

text \<open>
  Claim C8. \<open>getVideoMetadata\<close> raises an error exactly when the call fails or the
  response is absent, not marked successful, or without data; otherwise it returns the
  data of the response as it is.
\<close>

theorem getVideoMetadata_error_or_passthrough:
  "(isl (getVideoMetadata out) \<longleftrightarrow>
      (\<exists>m. out = Rejected m) \<or> out = Resolved None
      \<or> (\<exists>response. out = Resolved (Some response)
            \<and> (\<not> success response \<or> data response = None)))
   \<and> (\<forall>response d. out = Resolved (Some response) \<and> success response
          \<and> data response = Some d \<longrightarrow> getVideoMetadata out = Inr d)"
proof (cases out)
  case (Rejected m)
  then show ?thesis by (simp add: getVideoMetadata_def tryBody_def)
next
  case (Resolved ro)
  show ?thesis
  proof (cases ro)
    case None
    with Resolved show ?thesis by (simp add: getVideoMetadata_def tryBody_def)
  next
    case (Some response)
    with Resolved show ?thesis
      by (cases "data response") (simp_all add: getVideoMetadata_def tryBody_def)
  qed
qed

theorem getVideoMetadata_error_or_passthrough_witness:
  "success \<lparr>success = True, data = Some exampleMetadata\<rparr>
   \<and> data \<lparr>success = True, data = Some exampleMetadata\<rparr> = Some exampleMetadata
   \<and> getVideoMetadata (Resolved (Some \<lparr>success = True, data = Some exampleMetadata\<rparr>))
       = Inr exampleMetadata
   \<and> isl (getVideoMetadata (Resolved (Some \<lparr>success = False, data = Some exampleMetadata\<rparr>)))
   \<and> isl (getVideoMetadata (Resolved (Some \<lparr>success = True, data = None\<rparr>)))
   \<and> isl (getVideoMetadata (Resolved None))
   \<and> isl (getVideoMetadata (Rejected None))"
  using getVideoMetadata_error_or_passthrough
      [of "Resolved (Some \<lparr>success = True, data = Some exampleMetadata\<rparr>)"]
    getVideoMetadata_error_or_passthrough
      [of "Resolved (Some \<lparr>success = False, data = Some exampleMetadata\<rparr>)"]
    getVideoMetadata_error_or_passthrough
      [of "Resolved (Some \<lparr>success = True, data = None\<rparr>)"]
    getVideoMetadata_error_or_passthrough [of "Resolved None"]
    getVideoMetadata_error_or_passthrough [of "Rejected None"]
  by simp

section \<open>File names\<close>

text \<open>
  Claim C9. For every input string \<open>sanitizeFilename\<close> returns a non-empty string of at
  most 80 code units. Each of the nine characters of \<open>forbiddenChars\<close> (less-than,
  greater-than, colon, double quote, slash, backslash, bar, question mark, asterisk) is
  replaced by an underscore, so none is left in the result; the string is cut to 80 and
  trimmed, so the result neither starts nor ends with white space; when nothing is left,
  the fixed default name is returned. The later services collapse every run of white
  space to one space before the cut.
\<close>

theorem sanitizeFilename_nonempty_at_most_80:
  "sanitizeFilename0 s \<noteq> [] \<and> length (sanitizeFilename0 s) \<le> 80
   \<and> (\<forall>c \<in> set (sanitizeFilename0 s). c \<notin> set forbiddenChars)
   \<and> \<not> isWhiteSpace (hd (sanitizeFilename0 s)) \<and> \<not> isWhiteSpace (last (sanitizeFilename0 s))
   \<and> sanitizeFilename0 s = (if trim (take 80 (replaceForbidden s)) = [] then ascii ''video''
        else trim (take 80 (replaceForbidden s)))
   \<and> sanitizeFilename1 s \<noteq> [] \<and> length (sanitizeFilename1 s) \<le> 80
   \<and> (\<forall>c \<in> set (sanitizeFilename1 s). c \<notin> set forbiddenChars)
   \<and> \<not> isWhiteSpace (hd (sanitizeFilename1 s)) \<and> \<not> isWhiteSpace (last (sanitizeFilename1 s))
   \<and> sanitizeFilename1 s = (if trim (take 80 (collapseWhiteSpace (replaceForbidden s))) = []
        then ascii ''youtube-video''
        else trim (take 80 (collapseWhiteSpace (replaceForbidden s))))
   \<and> length (replaceForbidden s) = length s
   \<and> (\<forall>i < length s. replaceForbidden s ! i
         = (if s ! i \<in> set forbiddenChars then 0x5F else s ! i))"
proof -
  have a: "\<forall>c \<in> set (replaceForbidden s). c \<notin> set forbiddenChars"
    using set_replaceForbidden by blast
  have b: "\<forall>c \<in> set (collapseWhiteSpace (replaceForbidden s)). c \<notin> set forbiddenChars"
    using set_collapseWhiteSpace [of "replaceForbidden s"] a space_allowed by blast
  note z = sanitized_ok [OF a default_names(1-5), folded sanitizeFilename0_def]
  note o = sanitized_ok [OF b default_names(6-10), folded sanitizeFilename1_def]
  have e0: "sanitizeFilename0 s = (if trim (take 80 (replaceForbidden s)) = [] then ascii ''video''
        else trim (take 80 (replaceForbidden s)))"
    by (simp add: sanitizeFilename0_def)
  have e1: "sanitizeFilename1 s = (if trim (take 80 (collapseWhiteSpace (replaceForbidden s))) = []
        then ascii ''youtube-video''
        else trim (take 80 (collapseWhiteSpace (replaceForbidden s))))"
    by (simp add: sanitizeFilename1_def)
  have l: "length (replaceForbidden s) = length s" by (simp add: replaceForbidden_def)
  have n: "\<forall>i < length s. replaceForbidden s ! i
         = (if s ! i \<in> set forbiddenChars then 0x5F else s ! i)"
    using nth_replaceForbidden by blast
  from z o e0 e1 l n show ?thesis by (intro conjI) (elim conjE, assumption)+
qed

theorem sanitizeFilename_nonempty_at_most_80_witness:
  "sanitizeFilename0 (ascii ''  a/b:  c?  '') = ascii ''a_b_  c_''
   \<and> sanitizeFilename1 (ascii ''  a/b:  c?  '') = ascii ''a_b_ c_''
   \<and> sanitizeFilename0 (ascii ''   '') = ascii ''video''
   \<and> sanitizeFilename1 [] = ascii ''youtube-video''
   \<and> sanitizeFilename0 (ascii ''  a/b:  c?  '') \<noteq> []
   \<and> length (sanitizeFilename0 (ascii ''  a/b:  c?  '')) \<le> 80
   \<and> sanitizeFilename1 (ascii ''  a/b:  c?  '') \<noteq> []
   \<and> length (sanitizeFilename1 (ascii ''  a/b:  c?  '')) \<le> 80"
proof -
  have a: "sanitizeFilename0 (ascii ''  a/b:  c?  '') = ascii ''a_b_  c_''"
    "sanitizeFilename1 (ascii ''  a/b:  c?  '') = ascii ''a_b_ c_''"
    "sanitizeFilename0 (ascii ''   '') = ascii ''video''"
    "sanitizeFilename1 [] = ascii ''youtube-video''"
    by (simp_all add: sanitizeFilename0_def sanitizeFilename1_def replaceForbidden_def
        forbiddenChars_def trim_def isWhiteSpace_def ascii_def)
  from a sanitizeFilename_nonempty_at_most_80 [of "ascii ''  a/b:  c?  ''"]
  show ?thesis by (intro conjI) (elim conjE, assumption)+
qed

section \<open>Height parsing\<close>




end
